theory Spec2Isabelle
  imports Main
begin

section \<open>servers/todo-storage.js: the record store\<close>

text \<open>
  A stored todo, as \<^verbatim>\<open>create_todo\<close> builds it and \<^verbatim>\<open>update_todo\<close> /
  \<^verbatim>\<open>complete_todo\<close> extend it. \<^verbatim>\<open>title\<close> is whatever \<^verbatim>\<open>args.title\<close> was
  (absent when it was \<^verbatim>\<open>undefined\<close>); \<^verbatim>\<open>due_date\<close> is \<^verbatim>\<open>null\<close> or a string;
  \<^verbatim>\<open>updated_at\<close> and \<^verbatim>\<open>completed_at\<close> are absent until first written.
\<close>

record todo =
  todo_id :: string
  title :: "string option"
  description :: string
  priority :: string
  due_date :: "string option"
  completed :: bool
  created_at :: string
  updated_at :: "string option"
  completed_at :: "string option"

text \<open>
  The \<^verbatim>\<open>arguments\<close> object of a tool call: string-valued properties, each of which
  may be absent (\<^verbatim>\<open>undefined\<close>, here \<open>None\<close>); the handler does not check the
  input schema.
\<close>

record tool_args =
  arg_id :: "string option"
  arg_title :: "string option"
  arg_description :: "string option"
  arg_priority :: "string option"
  arg_due_date :: "string option"
  arg_status :: "string option"

text \<open>One segment of a tool result's \<^verbatim>\<open>content\<close> array; \<^verbatim>\<open>text\<close> may be absent.\<close>

record segment =
  seg_type :: string
  seg_text :: "string option"

definition text_segment :: "string \<Rightarrow> segment" where
  "text_segment s = \<lparr>seg_type = ''text'', seg_text = Some s\<rparr>"

text \<open>
  The clock readings a call consumes: \<^verbatim>\<open>Date.now().toString()\<close> and
  \<^verbatim>\<open>new Date().toISOString()\<close>.
\<close>

record clock =
  date_now :: string
  iso_now :: string

text \<open>
  The data file is \<open>None\<close> when it is missing or does not parse, in which case
  \<^verbatim>\<open>readTodos\<close> answers the empty array; \<^verbatim>\<open>writeTodos\<close> replaces the file.
  A file that parses holds an array of todos, and writing it does not fail.
\<close>

definition readTodos :: "todo list option \<Rightarrow> todo list" where
  "readTodos file = (case file of None \<Rightarrow> [] | Some todos \<Rightarrow> todos)"

definition writeTodos :: "todo list \<Rightarrow> todo list option" where
  "writeTodos todos = Some todos"

text \<open>\<^verbatim>\<open>Array.prototype.findIndex\<close>; the source's \<^verbatim>\<open>-1\<close> is \<open>None\<close>.\<close>

fun findIndex :: "('a \<Rightarrow> bool) \<Rightarrow> 'a list \<Rightarrow> nat option" where
  "findIndex p [] = None"
| "findIndex p (x # xs) = (if p x then Some 0 else map_option Suc (findIndex p xs))"

text \<open>\<^verbatim>\<open>Array.prototype.join\<close> on strings.\<close>

fun join :: "string \<Rightarrow> string list \<Rightarrow> string" where
  "join sep [] = []"
| "join sep [x] = x"
| "join sep (x # y # ys) = x @ sep @ join sep (y # ys)"

text \<open>JavaScript truthiness of a string-valued property and of \<^verbatim>\<open>null\<close>/\<^verbatim>\<open>undefined\<close>.\<close>

definition truthy :: "string option \<Rightarrow> bool" where
  "truthy v = (case v of None \<Rightarrow> False | Some s \<Rightarrow> s \<noteq> [])"

text \<open>How a template literal renders a string-valued property.\<close>

definition js_str :: "string option \<Rightarrow> string" where
  "js_str v = (case v of None \<Rightarrow> ''undefined'' | Some s \<Rightarrow> s)"

definition or_else :: "string option \<Rightarrow> string \<Rightarrow> string" where
  "or_else v d = (if truthy v then the v else d)"

text \<open>The non-ASCII marks of the source, as their UTF-8 bytes, and the double quote.\<close>

definition check_mark :: string where
  "check_mark = [CHR 0xE2, CHR 0x9C, CHR 0x93]"

definition circle_mark :: string where
  "circle_mark = [CHR 0xE2, CHR 0x97, CHR 0x8B]"

definition dq :: string where
  "dq = [CHR 0x22]"

definition newline :: string where
  "newline = [CHR 0x0A]"

text \<open>One line of the \<^verbatim>\<open>list_todos\<close> answer.\<close>

definition todo_line :: "todo \<Rightarrow> string" where
  "todo_line t =
     ''['' @ todo_id t @ ''] '' @ (if completed t then check_mark else circle_mark) @ '' '' @
     js_str (title t) @ '' | '' @ priority t @ '' priority'' @
     (if truthy (due_date t) then '' | due '' @ the (due_date t) else []) @
     (if description t \<noteq> [] then '' | '' @ description t else [])"

definition reply :: "string \<Rightarrow> string + segment list" where
  "reply s = Inr [text_segment s]"

text \<open>
  The \<^verbatim>\<open>CallToolRequestSchema\<close> handler. It takes the data file and returns the answer
  (or the thrown error's message, \<open>Inl\<close>) together with the data file afterwards.
\<close>

definition call_tool :: "clock \<Rightarrow> string \<Rightarrow> tool_args \<Rightarrow> todo list option
    \<Rightarrow> (string + segment list) \<times> todo list option" where
  "call_tool clk name args file =
     (if name = ''create_todo'' then
        (let todos = readTodos file;
             todo = \<lparr>todo_id = date_now clk,
                     title = arg_title args,
                     description = or_else (arg_description args) [],
                     priority = or_else (arg_priority args) ''medium'',
                     due_date = (if truthy (arg_due_date args) then arg_due_date args else None),
                     completed = False,
                     created_at = iso_now clk,
                     updated_at = None,
                     completed_at = None\<rparr>
         in (reply (''Created todo '' @ dq @ js_str (title todo) @ dq @ '' with ID '' @ todo_id todo),
             writeTodos (todos @ [todo])))
      else if name = ''list_todos'' then
        (let todos0 = readTodos file;
             todos1 = (if arg_status args = Some ''pending''
                       then filter (\<lambda>t. \<not> completed t) todos0 else todos0);
             todos2 = (if arg_status args = Some ''completed''
                       then filter (\<lambda>t. completed t) todos1 else todos1);
             todos3 = (if truthy (arg_priority args)
                       then filter (\<lambda>t. Some (priority t) = arg_priority args) todos2 else todos2)
         in if length todos3 = 0 then (reply ''No todos match the filter.'', file)
            else (reply (join newline (map todo_line todos3)), file))
      else if name = ''update_todo'' then
        (let todos = readTodos file in
         case findIndex (\<lambda>t. Some (todo_id t) = arg_id args) todos of
           None \<Rightarrow> (reply (''No todo found with ID '' @ js_str (arg_id args)), file)
         | Some idx \<Rightarrow>
             (let t0 = todos ! idx;
                  t1 = (case arg_title args of None \<Rightarrow> t0 | Some v \<Rightarrow> t0\<lparr>title := Some v\<rparr>);
                  t2 = (case arg_description args of None \<Rightarrow> t1 | Some v \<Rightarrow> t1\<lparr>description := v\<rparr>);
                  t3 = (case arg_priority args of None \<Rightarrow> t2 | Some v \<Rightarrow> t2\<lparr>priority := v\<rparr>);
                  t4 = (case arg_due_date args of None \<Rightarrow> t3 | Some v \<Rightarrow> t3\<lparr>due_date := Some v\<rparr>);
                  t5 = t4\<lparr>updated_at := Some (iso_now clk)\<rparr>
              in (reply (''Updated todo '' @ dq @ js_str (title t5) @ dq), writeTodos (todos[idx := t5]))))
      else if name = ''complete_todo'' then
        (let todos = readTodos file in
         case findIndex (\<lambda>t. Some (todo_id t) = arg_id args) todos of
           None \<Rightarrow> (reply (''No todo found with ID '' @ js_str (arg_id args)), file)
         | Some idx \<Rightarrow>
             (let t1 = (todos ! idx)\<lparr>completed := True, completed_at := Some (iso_now clk)\<rparr>
              in (reply (''Marked '' @ dq @ js_str (title t1) @ dq @ '' as complete '' @ check_mark),
                  writeTodos (todos[idx := t1]))))
      else if name = ''delete_todo'' then
        (let todos = readTodos file in
         case findIndex (\<lambda>t. Some (todo_id t) = arg_id args) todos of
           None \<Rightarrow> (reply (''No todo found with ID '' @ js_str (arg_id args)), file)
         | Some idx \<Rightarrow>
             (let deleted = todos ! idx
              in (reply (''Deleted '' @ dq @ js_str (title deleted) @ dq),
                  writeTodos (take idx todos @ drop (Suc idx) todos))))
      else (Inl (''Unknown tool: '' @ name), file))"

section \<open>server.js: the orchestrator\<close>

subsection \<open>Data\<close>

text \<open>A structured payload (a tool's arguments, an input schema).\<close>

datatype json =
    JNull
  | JBool bool
  | JNum int
  | JStr string
  | JArr "json list"
  | JObj "(string \<times> json) list"

text \<open>The servers a tool can be routed to: the strings \<^verbatim>\<open>'storage'\<close> and \<^verbatim>\<open>'ai'\<close>.\<close>

datatype server = Storage | Ai

text \<open>An entry of \<^verbatim>\<open>listTools().tools\<close>, and an entry of \<^verbatim>\<open>allTools\<close>.\<close>

record tool_meta =
  meta_name :: string
  meta_description :: string
  inputSchema :: json

record tool_decl =
  decl_name :: string
  decl_description :: string
  input_schema :: json

text \<open>The module state \<^verbatim>\<open>initMCP\<close> fills: \<^verbatim>\<open>toolServerMap\<close> and \<^verbatim>\<open>allTools\<close>.\<close>

record registry =
  toolServerMap :: "string \<rightharpoonup> server"
  allTools :: "tool_decl list"

text \<open>A content block of an engine response, by its \<^verbatim>\<open>type\<close>.\<close>

datatype block =
    TextBlock string
  | ToolUse string string json
  | OtherBlock string

record response =
  stop_reason :: string
  content :: "block list"

record tool_result =
  tool_use_id :: string
  result_content :: string

datatype message_content =
    UserText string
  | AssistantBlocks "block list"
  | ToolResults "tool_result list"

record message =
  role :: string
  msg_content :: message_content

text \<open>The server-sent events, by their \<^verbatim>\<open>type\<close>.\<close>

datatype event =
    Tool_call string json
  | Tool_result string string
  | Response string
  | Done "message list"
  | Error string

text \<open>
  The two external collaborators, over a world \<open>'w\<close> they may read and change:
  \<^verbatim>\<open>anthropic.messages.create\<close> (given \<^verbatim>\<open>messages\<close> and \<^verbatim>\<open>tools\<close>) and
  \<^verbatim>\<open>client.callTool\<close> of the client of a server. \<open>Inl\<close> is the message of the error
  the awaited call throws.
\<close>

record 'w env =
  messages_create :: "message list \<Rightarrow> tool_decl list \<Rightarrow> 'w \<Rightarrow> (string + response) \<times> 'w"
  callTool :: "server \<Rightarrow> string \<Rightarrow> json \<Rightarrow> 'w \<Rightarrow> (string + segment list) \<times> 'w"

subsection \<open>initMCP\<close>

definition to_decl :: "tool_meta \<Rightarrow> tool_decl" where
  "to_decl t = \<lparr>decl_name = meta_name t, decl_description = meta_description t,
                input_schema = inputSchema t\<rparr>"

text \<open>One of the two registration loops: \<^verbatim>\<open>toolServerMap.set\<close> and \<^verbatim>\<open>allTools.push\<close>.\<close>

fun register_tools :: "server \<Rightarrow> tool_meta list \<Rightarrow> registry \<Rightarrow> registry" where
  "register_tools srv [] reg = reg"
| "register_tools srv (t # ts) reg =
     register_tools srv ts
       \<lparr>toolServerMap = (toolServerMap reg)(meta_name t \<mapsto> srv),
        allTools = allTools reg @ [to_decl t]\<rparr>"

definition empty_registry :: registry where
  "empty_registry = \<lparr>toolServerMap = Map.empty, allTools = []\<rparr>"

text \<open>
  \<^verbatim>\<open>initMCP\<close>, given what spawning a server and listing its tools gave for each of the two
  servers (\<open>Inl\<close>: the awaited call rejected). A rejection is the only way \<^verbatim>\<open>initMCP\<close>
  can fail, and the caller then exits the process. When both reject, which error
  \<^verbatim>\<open>Promise.all\<close> reports depends on timing; the model reports the storage server's.
\<close>

definition initMCP :: "string + tool_meta list \<Rightarrow> string + tool_meta list \<Rightarrow> string + registry" where
  "initMCP storageMeta aiMeta =
     (case storageMeta of
        Inl err \<Rightarrow> Inl err
      | Inr storageTools \<Rightarrow>
          (case aiMeta of
             Inl err \<Rightarrow> Inl err
           | Inr aiTools \<Rightarrow>
               Inr (register_tools Ai aiTools (register_tools Storage storageTools empty_registry))))"

subsection \<open>callMCPTool\<close>

text \<open>\<^verbatim>\<open>result.content[0]?.text ?? ''\<close>\<close>

definition first_text :: "segment list \<Rightarrow> string" where
  "first_text cont =
     (case cont of
        [] \<Rightarrow> []
      | seg # _ \<Rightarrow> (case seg_text seg of None \<Rightarrow> [] | Some t \<Rightarrow> t))"

definition callMCPTool :: "'w env \<Rightarrow> registry \<Rightarrow> string \<Rightarrow> json \<Rightarrow> 'w \<Rightarrow> (string + string) \<times> 'w" where
  "callMCPTool env reg name args w =
     (case toolServerMap reg name of
        None \<Rightarrow> (Inl (''No MCP server registered for tool: '' @ name), w)
      | Some srv \<Rightarrow>
          (case callTool env srv name args w of
             (Inl err, w') \<Rightarrow> (Inl err, w')
           | (Inr result, w') \<Rightarrow> (Inr (first_text result), w')))"

subsection \<open>POST /api/chat\<close>

text \<open>
  The \<^verbatim>\<open>for (const block of response.content)\<close> loop. \<open>sent\<close> is what \<^verbatim>\<open>send\<close> has
  written so far (writing to the response does not fail), \<open>toolResults\<close> the array being
  filled. A throwing call leaves the loop with \<open>Inl\<close>; what was sent before stays sent.
\<close>

fun for_blocks :: "'w env \<Rightarrow> registry \<Rightarrow> block list \<Rightarrow> event list \<Rightarrow> tool_result list \<Rightarrow> 'w
    \<Rightarrow> (string + tool_result list) \<times> event list \<times> 'w" where
  "for_blocks env reg [] sent toolResults w = (Inr toolResults, sent, w)"
| "for_blocks env reg (ToolUse bid name inp # rest) sent toolResults w =
     (let sent1 = sent @ [Tool_call name inp] in
      case callMCPTool env reg name inp w of
        (Inl err, w') \<Rightarrow> (Inl err, sent1, w')
      | (Inr result, w') \<Rightarrow>
          for_blocks env reg rest (sent1 @ [Tool_result name result])
            (toolResults @ [\<lparr>tool_use_id = bid, result_content = result\<rparr>]) w')"
| "for_blocks env reg (_ # rest) sent toolResults w = for_blocks env reg rest sent toolResults w"

text \<open>\<^verbatim>\<open>response.content.find(b => b.type === 'text')?.text ?? ''\<close>\<close>

fun find_text :: "block list \<Rightarrow> string" where
  "find_text [] = []"
| "find_text (TextBlock t # _) = t"
| "find_text (_ # rest) = find_text rest"

text \<open>The three kinds of message the handler appends to \<^verbatim>\<open>messages\<close>.\<close>

definition user_message :: "string \<Rightarrow> message" where
  "user_message msg = \<lparr>role = ''user'', msg_content = UserText msg\<rparr>"

definition assistant_message :: "block list \<Rightarrow> message" where
  "assistant_message bs = \<lparr>role = ''assistant'', msg_content = AssistantBlocks bs\<rparr>"

definition results_message :: "tool_result list \<Rightarrow> message" where
  "results_message toolResults = \<lparr>role = ''user'', msg_content = ToolResults toolResults\<rparr>"

text \<open>How one pass through the body of \<^verbatim>\<open>while (true)\<close> ends.\<close>

datatype ctl = Continue | Break | Throw string

text \<open>
  One pass through the loop body, from the current \<^verbatim>\<open>messages\<close>, the events sent so far
  and the world, to how the pass ends and what these three are then.
\<close>

definition loop_body :: "'w env \<Rightarrow> registry \<Rightarrow> message list \<Rightarrow> event list \<Rightarrow> 'w
    \<Rightarrow> ctl \<times> message list \<times> event list \<times> 'w" where
  "loop_body env reg messages sent w =
     (case messages_create env messages (allTools reg) w of
        (Inl err, w1) \<Rightarrow> (Throw err, messages, sent, w1)
      | (Inr response, w1) \<Rightarrow>
          if stop_reason response = ''tool_use'' then
            (let messages1 = messages @ [assistant_message (content response)] in
             case for_blocks env reg (content response) sent [] w1 of
               (Inl err, sent2, w2) \<Rightarrow> (Throw err, messages1, sent2, w2)
             | (Inr toolResults, sent2, w2) \<Rightarrow>
                 (Continue, messages1 @ [results_message toolResults], sent2, w2))
          else
            (let text = find_text (content response);
                 messages1 = messages @ [assistant_message (content response)]
             in (Break, messages1, sent @ [Response text, Done messages1], w1)))"

text \<open>
  The \<^verbatim>\<open>while (true)\<close> loop inside \<^verbatim>\<open>try\<close>. \<open>None\<close> is a loop that never ends;
  otherwise the result says whether the loop was left by \<^verbatim>\<open>break\<close> or by a throw.
\<close>

partial_function (option) agent_loop :: "'w env \<Rightarrow> registry \<Rightarrow> message list \<Rightarrow> event list \<Rightarrow> 'w
    \<Rightarrow> (ctl \<times> message list \<times> event list \<times> 'w) option" where
  "agent_loop env reg messages sent w =
     (case loop_body env reg messages sent w of
        (Continue, messages', sent', w') \<Rightarrow> agent_loop env reg messages' sent' w'
      | (Break, messages', sent', w') \<Rightarrow> Some (Break, messages', sent', w')
      | (Throw err, messages', sent', w') \<Rightarrow> Some (Throw err, messages', sent', w'))"

text \<open>
  The \<^verbatim>\<open>catch\<close> clause and \<^verbatim>\<open>res.end()\<close>: the events of the finished stream and the
  world afterwards.
\<close>

definition catch_end :: "(ctl \<times> message list \<times> event list \<times> 'w) option \<Rightarrow> (event list \<times> 'w) option" where
  "catch_end r =
     (case r of
        None \<Rightarrow> None
      | Some (Throw err, _, sent, w) \<Rightarrow> Some (sent @ [Error err], w)
      | Some (_, _, sent, w) \<Rightarrow> Some (sent, w))"

text \<open>The handler of \<^verbatim>\<open>POST /api/chat\<close> for a body \<^verbatim>\<open>{ message, history }\<close>.\<close>

definition chat :: "'w env \<Rightarrow> registry \<Rightarrow> string \<Rightarrow> message list \<Rightarrow> 'w \<Rightarrow> (event list \<times> 'w) option" where
  "chat env reg msg history w =
     catch_end (agent_loop env reg (history @ [user_message msg]) [] w)"

text \<open>
  The first \<open>n\<close> passes through the loop body: the result of the loop when it is left
  within \<open>n\<close> passes, \<open>None\<close> when it is still running after them.
\<close>

fun passes :: "nat \<Rightarrow> 'w env \<Rightarrow> registry \<Rightarrow> message list \<Rightarrow> event list \<Rightarrow> 'w
    \<Rightarrow> (ctl \<times> message list \<times> event list \<times> 'w) option" where
  "passes 0 env reg messages sent w = None"
| "passes (Suc n) env reg messages sent w =
     (case loop_body env reg messages sent w of
        (Continue, messages', sent', w') \<Rightarrow> passes n env reg messages' sent' w'
      | (Break, messages', sent', w') \<Rightarrow> Some (Break, messages', sent', w')
      | (Throw err, messages', sent', w') \<Rightarrow> Some (Throw err, messages', sent', w'))"

text \<open>
  The state after the first \<open>n\<close> passes when each of them continues; \<open>None\<close> when the
  loop is left before.
\<close>

fun rounds :: "nat \<Rightarrow> 'w env \<Rightarrow> registry \<Rightarrow> message list \<Rightarrow> event list \<Rightarrow> 'w
    \<Rightarrow> (message list \<times> event list \<times> 'w) option" where
  "rounds 0 env reg messages sent w = Some (messages, sent, w)"
| "rounds (Suc n) env reg messages sent w =
     (case loop_body env reg messages sent w of
        (Continue, messages', sent', w') \<Rightarrow> rounds n env reg messages' sent' w'
      | (Break, _, _, _) \<Rightarrow> None
      | (Throw _, _, _, _) \<Rightarrow> None)"

section \<open>Vocabulary of the properties\<close>

text \<open>
  An engine that requests tools on every query, and tool calls that return whenever the
  engine requested them.
\<close>

definition requests_always :: "'w env \<Rightarrow> bool" where
  "requests_always env =
     (\<forall>messages tools w. \<exists>resp w1.
        messages_create env messages tools w = (Inr resp, w1) \<and> stop_reason resp = ''tool_use'')"

definition calls_return :: "'w env \<Rightarrow> registry \<Rightarrow> bool" where
  "calls_return env reg =
     (\<forall>messages tools w resp w1 bid name inp w2.
        messages_create env messages tools w = (Inr resp, w1) \<and>
        ToolUse bid name inp \<in> set (content resp) \<longrightarrow>
        (\<exists>result w3. callMCPTool env reg name inp w2 = (Inr result, w3)))"


text \<open>The filters of \<^verbatim>\<open>list_todos\<close>, as its description words them.\<close>

definition status_filter :: "string option \<Rightarrow> todo \<Rightarrow> bool" where
  "status_filter status t =
     (if status = Some ''pending'' then \<not> completed t
      else if status = Some ''completed'' then completed t
      else True)"

text \<open>
  A priority argument is given when it is present and not the empty string (which
  JavaScript takes for false).
\<close>

definition priority_filter :: "string option \<Rightarrow> todo \<Rightarrow> bool" where
  "priority_filter prio t =
     (case prio of None \<Rightarrow> True | Some p \<Rightarrow> p = [] \<or> priority t = p)"

fun is_tool_use :: "block \<Rightarrow> bool" where
  "is_tool_use (ToolUse _ _ _) = True"
| "is_tool_use _ = False"

fun is_tool_event :: "event \<Rightarrow> bool" where
  "is_tool_event (Tool_call _ _) = True"
| "is_tool_event (Tool_result _ _) = True"
| "is_tool_event _ = False"

fun is_error :: "event \<Rightarrow> bool" where
  "is_error (Error _) = True"
| "is_error _ = False"

fun is_done :: "event \<Rightarrow> bool" where
  "is_done (Done _) = True"
| "is_done _ = False"

section \<open>Sample inputs\<close>

definition milk_todo :: todo where
  "milk_todo = \<lparr>todo_id = ''1001'', title = Some ''buy milk'', description = [],
     priority = ''medium'', due_date = None, completed = False,
     created_at = ''2026-02-01T10:00:00.000Z'', updated_at = None, completed_at = None\<rparr>"

definition review_todo :: todo where
  "review_todo = \<lparr>todo_id = ''1002'', title = Some ''Review PR'', description = ''the parser change'',
     priority = ''high'', due_date = Some ''2026-02-28'', completed = True,
     created_at = ''2026-02-02T10:00:00.000Z'', updated_at = None,
     completed_at = Some ''2026-02-03T09:00:00.000Z''\<rparr>"

definition no_args :: tool_args where
  "no_args = \<lparr>arg_id = None, arg_title = None, arg_description = None, arg_priority = None,
     arg_due_date = None, arg_status = None\<rparr>"

definition sample_clock :: clock where
  "sample_clock = \<lparr>date_now = ''1003'', iso_now = ''2026-02-04T08:00:00.000Z''\<rparr>"

definition create_item_meta :: tool_meta where
  "create_item_meta = \<lparr>meta_name = ''create_item'', meta_description = ''Create an item'',
     inputSchema = JObj [(''type'', JStr ''object'')]\<rparr>"

definition list_todos_meta :: tool_meta where
  "list_todos_meta = \<lparr>meta_name = ''list_todos'', meta_description = ''List todos'',
     inputSchema = JObj [(''type'', JStr ''object'')]\<rparr>"

definition sample_registry :: registry where
  "sample_registry = register_tools Storage [create_item_meta] empty_registry"

definition created_text :: string where
  "created_text = ''Created item '' @ dq @ ''buy milk'' @ dq @ '' with ID 1001''"

text \<open>
  A provider that answers every call with the same text, and an engine that plays a
  script: its \<open>n\<close>-th query is answered by the \<open>n\<close>-th response of the script, and a
  query beyond the script fails. The world counts the engine queries made so far.
\<close>

definition scripted :: "response list \<Rightarrow> nat env" where
  "scripted script =
     \<lparr>messages_create = (\<lambda>messages tools n.
         (if n < length script then Inr (script ! n) else Inl ''engine unavailable'', Suc n)),
      callTool = (\<lambda>srv name args n. (Inr [text_segment created_text], n))\<rparr>"

definition create_call :: block where
  "create_call = ToolUse ''toolu_1'' ''create_item'' (JObj [(''title'', JStr ''buy milk'')])"

definition eggs_call :: block where
  "eggs_call = ToolUse ''toolu_2'' ''create_item'' (JObj [(''title'', JStr ''buy eggs'')])"

definition unknown_call :: block where
  "unknown_call = ToolUse ''toolu_0'' ''nope'' JNull"

definition requests :: "block list \<Rightarrow> response" where
  "requests blocks = \<lparr>stop_reason = ''tool_use'', content = blocks\<rparr>"

definition answers :: "string \<Rightarrow> response" where
  "answers text = \<lparr>stop_reason = ''end_turn'', content = [TextBlock text]\<rparr>"

text \<open>An engine that requests the same tool on every query.\<close>

definition insistent :: "nat env" where
  "insistent =
     \<lparr>messages_create = (\<lambda>messages tools n. (Inr (requests [create_call]), Suc n)),
      callTool = (\<lambda>srv name args n. (Inr [text_segment created_text], n))\<rparr>"

text \<open>
  The turn of the end-to-end scenario: what it appends to the conversation and the events
  it sends before the final one.
\<close>

definition milk_conversation :: "message list" where
  "milk_conversation =
     [user_message ''add buy milk'', assistant_message [create_call],
      results_message [\<lparr>tool_use_id = ''toolu_1'', result_content = created_text\<rparr>],
      assistant_message [TextBlock ''Added!'']]"

definition milk_events :: "event list" where
  "milk_events =
     [Tool_call ''create_item'' (JObj [(''title'', JStr ''buy milk'')]),
      Tool_result ''create_item'' created_text,
      Response ''Added!'']"

text \<open>A conversation from an earlier turn.\<close>

definition greeting :: "message list" where
  "greeting = [user_message ''hi'', assistant_message [TextBlock ''Hello!'']]"

section \<open>The record store: lemmas\<close>

lemma findIndex_None: "findIndex p xs = None \<longleftrightarrow> (\<forall>x\<in>set xs. \<not> p x)"
  by (induction xs) auto

section \<open>The registry: lemmas\<close>

lemma register_tools_map:
  "toolServerMap (register_tools srv ts reg) n =
     (if n \<in> meta_name ` set ts then Some srv else toolServerMap reg n)"
  by (induction ts arbitrary: reg) auto

lemma register_tools_all:
  "allTools (register_tools srv ts reg) = allTools reg @ map to_decl ts"
  by (induction ts arbitrary: reg) auto

lemma callMCPTool_unregistered:
  "toolServerMap reg name = None \<Longrightarrow>
     callMCPTool env reg name args w = (Inl (''No MCP server registered for tool: '' @ name), w)"
  by (simp add: callMCPTool_def)

section \<open>The dispatch loop: lemmas\<close>

text \<open>Blocks that are not tool requests are skipped.\<close>

lemma for_blocks_filter:
  "for_blocks env reg (filter is_tool_use bs) sent trs w = for_blocks env reg bs sent trs w"
  by (induction env reg bs sent trs w rule: for_blocks.induct)
     (auto simp: Let_def split: prod.splits sum.splits)

text \<open>The loop over a concatenation: the second part runs only if the first did not throw.\<close>

lemma for_blocks_append:
  "for_blocks env reg (pre @ bs) sent trs w =
     (case for_blocks env reg pre sent trs w of
        (Inl e, sent', w') \<Rightarrow> (Inl e, sent', w')
      | (Inr trs', sent', w') \<Rightarrow> for_blocks env reg bs sent' trs' w')"
  by (induction env reg pre sent trs w rule: for_blocks.induct)
     (auto simp: Let_def split: prod.splits sum.splits)

text \<open>The loop only appends to what was sent, and only tool events.\<close>

lemma for_blocks_sent:
  "for_blocks env reg bs sent trs w = (out, sent', w') \<Longrightarrow>
     \<exists>new. sent' = sent @ new \<and> (\<forall>e\<in>set new. is_tool_event e)"
proof (induction env reg bs sent trs w rule: for_blocks.induct)
  case (2 env reg bid name inp rest sent toolResults w)
  show ?case
  proof (cases "callMCPTool env reg name inp w")
    case (Pair r w1)
    show ?thesis
    proof (cases r)
      case (Inl err)
      with Pair 2(2) have "sent' = sent @ [Tool_call name inp]" by simp
      then show ?thesis by simp
    next
      case (Inr result)
      with Pair 2(2) have "for_blocks env reg rest ((sent @ [Tool_call name inp]) @ [Tool_result name result])
            (toolResults @ [\<lparr>tool_use_id = bid, result_content = result\<rparr>]) w1 = (out, sent', w')"
        by simp
      from 2(1)[OF refl Pair[symmetric] Inr this]
      obtain new where "sent' = ((sent @ [Tool_call name inp]) @ [Tool_result name result]) @ new"
        and "\<forall>e\<in>set new. is_tool_event e" by blast
      then have "sent' = sent @ (Tool_call name inp # Tool_result name result # new) \<and>
          (\<forall>e\<in>set (Tool_call name inp # Tool_result name result # new). is_tool_event e)" by simp
      then show ?thesis by blast
    qed
  qed
qed auto

text \<open>A loop left by a throw: the call that threw, and the calls before it, which returned.\<close>

lemma for_blocks_throw:
  "for_blocks env reg bs sent trs w = (Inl err, sent', w') \<Longrightarrow>
     \<exists>pre bid name inp rest trs1 sent1 w0.
        bs = pre @ ToolUse bid name inp # rest \<and>
        for_blocks env reg pre sent trs w = (Inr trs1, sent1, w0) \<and>
        callMCPTool env reg name inp w0 = (Inl err, w') \<and>
        sent' = sent1 @ [Tool_call name inp]"
proof (induction bs arbitrary: sent trs w)
  case Nil
  then show ?case by simp
next
  case (Cons b bs)
  show ?case
  proof (cases "is_tool_use b")
    case False
    then have skip: "\<And>xs s t v. for_blocks env reg (b # xs) s t v = for_blocks env reg xs s t v"
      by (cases b) simp_all
    from Cons.prems have "for_blocks env reg bs sent trs w = (Inl err, sent', w')"
      by (simp add: skip)
    from Cons.IH[OF this]
    obtain pre bid name inp rest trs1 sent1 w0 where
      a: "bs = pre @ ToolUse bid name inp # rest"
      and b: "for_blocks env reg pre sent trs w = (Inr trs1, sent1, w0)"
      and c: "callMCPTool env reg name inp w0 = (Inl err, w')"
      and d: "sent' = sent1 @ [Tool_call name inp]" by blast
    from a b c d have "b # bs = (b # pre) @ ToolUse bid name inp # rest \<and>
        for_blocks env reg (b # pre) sent trs w = (Inr trs1, sent1, w0) \<and>
        callMCPTool env reg name inp w0 = (Inl err, w') \<and>
        sent' = sent1 @ [Tool_call name inp]" by (simp add: skip)
    then show ?thesis by blast
  next
    case True
    then obtain bid name inp where b: "b = ToolUse bid name inp" by (cases b) simp_all
    obtain r w1 where call: "callMCPTool env reg name inp w = (r, w1)"
      by (cases "callMCPTool env reg name inp w") auto
    show ?thesis
    proof (cases r)
      case (Inl e)
      with call b Cons.prems
      have "e = err" "w1 = w'" "sent' = sent @ [Tool_call name inp]" by simp_all
      with call Inl b have "b # bs = [] @ ToolUse bid name inp # bs \<and>
          for_blocks env reg [] sent trs w = (Inr trs, sent, w) \<and>
          callMCPTool env reg name inp w = (Inl err, w') \<and>
          sent' = sent @ [Tool_call name inp]" by simp
      then show ?thesis by blast
    next
      case (Inr result)
      let ?s = "(sent @ [Tool_call name inp]) @ [Tool_result name result]"
      let ?t = "trs @ [\<lparr>tool_use_id = bid, result_content = result\<rparr>]"
      from call Inr b Cons.prems have "for_blocks env reg bs ?s ?t w1 = (Inl err, sent', w')"
        by simp
      from Cons.IH[OF this]
      obtain pre bid' name' inp' rest trs1 sent1 w0 where
        a: "bs = pre @ ToolUse bid' name' inp' # rest"
        and p: "for_blocks env reg pre ?s ?t w1 = (Inr trs1, sent1, w0)"
        and c: "callMCPTool env reg name' inp' w0 = (Inl err, w')"
        and d: "sent' = sent1 @ [Tool_call name' inp']" by blast
      from p call Inr have "for_blocks env reg (ToolUse bid name inp # pre) sent trs w =
          (Inr trs1, sent1, w0)" by simp
      with a c d b have "b # bs = (b # pre) @ ToolUse bid' name' inp' # rest \<and>
          for_blocks env reg (b # pre) sent trs w = (Inr trs1, sent1, w0) \<and>
          callMCPTool env reg name' inp' w0 = (Inl err, w') \<and>
          sent' = sent1 @ [Tool_call name' inp']" by simp
      then show ?thesis by blast
    qed
  qed
qed

text \<open>When every requested call returns, so does the loop.\<close>

lemma for_blocks_returns:
  assumes "\<And>bid name inp w. ToolUse bid name inp \<in> set bs \<Longrightarrow>
             \<exists>result w'. callMCPTool env reg name inp w = (Inr result, w')"
  shows "\<exists>trs' sent' w'. for_blocks env reg bs sent trs w = (Inr trs', sent', w')"
proof (cases "for_blocks env reg bs sent trs w")
  case (fields out sent' w')
  show ?thesis
  proof (cases out)
    case (Inl err)
    with fields for_blocks_throw[of env reg bs sent trs w err sent' w']
    obtain pre bid name inp rest w0 where "bs = pre @ ToolUse bid name inp # rest"
      and "callMCPTool env reg name inp w0 = (Inl err, w')" by blast
    with assms[of bid name inp w0] show ?thesis by auto
  next
    case (Inr trs')
    with fields show ?thesis by simp
  qed
qed

section \<open>The agent loop: lemmas\<close>

lemma loop_body_engine_error:
  assumes "messages_create env messages (allTools reg) w = (Inl err, w1)"
  shows "loop_body env reg messages sent w = (Throw err, messages, sent, w1)"
  using assms by (simp add: loop_body_def)

lemma loop_body_tool_use:
  assumes "messages_create env messages (allTools reg) w = (Inr response, w1)"
    and "stop_reason response = ''tool_use''"
    and "for_blocks env reg (content response) sent [] w1 = (out, sent2, w2)"
  shows "loop_body env reg messages sent w =
     (case out of
        Inl err \<Rightarrow> (Throw err, messages @ [assistant_message (content response)], sent2, w2)
      | Inr toolResults \<Rightarrow>
          (Continue,
           messages @ [assistant_message (content response), results_message toolResults],
           sent2, w2))"
  using assms by (simp add: loop_body_def Let_def split: sum.splits)

lemma loop_body_answer:
  assumes "messages_create env messages (allTools reg) w = (Inr response, w1)"
    and "stop_reason response \<noteq> ''tool_use''"
  shows "loop_body env reg messages sent w =
     (Break, messages @ [assistant_message (content response)],
      sent @ [Response (find_text (content response)),
              Done (messages @ [assistant_message (content response)])], w1)"
  using assms by (simp add: loop_body_def Let_def)

text \<open>A failing engine query leaves the loop by a throw, at once.\<close>

lemma agent_loop_engine_error:
  assumes "messages_create env messages (allTools reg) w = (Inl err, w1)"
  shows "agent_loop env reg messages sent w = Some (Throw err, messages, sent, w1)"
  by (subst agent_loop.simps) (simp add: loop_body_engine_error[OF assms])

text \<open>What one pass adds to the events sent.\<close>

lemma loop_body_sent:
  assumes "loop_body env reg messages sent w = (c, messages', sent', w')"
  shows "(c = Break \<longrightarrow> (\<exists>t. sent' = sent @ [Response t, Done messages'])) \<and>
         (c \<noteq> Break \<longrightarrow> (\<exists>new. sent' = sent @ new \<and> (\<forall>e\<in>set new. is_tool_event e)))"
proof (cases "messages_create env messages (allTools reg) w")
  case (Pair r w1)
  show ?thesis
  proof (cases r)
    case (Inl err)
    with Pair assms show ?thesis by (auto simp: loop_body_def)
  next
    case (Inr resp)
    show ?thesis
    proof (cases "stop_reason resp = ''tool_use''")
      case False
      with Pair Inr assms show ?thesis by (auto simp: loop_body_def Let_def)
    next
      case True
      obtain out s2 w2 where fb: "for_blocks env reg (content resp) sent [] w1 = (out, s2, w2)"
        by (cases "for_blocks env reg (content resp) sent [] w1") auto
      from for_blocks_sent[OF fb] obtain new
        where n: "s2 = sent @ new" "\<forall>e\<in>set new. is_tool_event e" by blast
      from Pair Inr True fb assms have "sent' = s2 \<and> c \<noteq> Break"
        by (cases out) (auto simp: loop_body_def Let_def)
      with n show ?thesis by blast
    qed
  qed
qed

text \<open>The loop, unfolded once at a pass whose end is known.\<close>

lemma agent_loop_unfold:
  assumes "loop_body env reg messages sent w = (c, m', s', w')"
  shows "agent_loop env reg messages sent w =
           (if c = Continue then agent_loop env reg m' s' w' else Some (c, m', s', w'))"
  using assms by (subst agent_loop.simps) (cases c; simp)

text \<open>A loop that is left within \<open>n\<close> passes ends, with that result.\<close>

lemma passes_agent_loop:
  "passes n env reg messages sent w = Some r \<Longrightarrow> agent_loop env reg messages sent w = Some r"
proof (induction n arbitrary: messages sent w)
  case 0
  then show ?case by simp
next
  case (Suc n)
  obtain c m' s' w' where lb: "loop_body env reg messages sent w = (c, m', s', w')"
    by (cases "loop_body env reg messages sent w") auto
  show ?case
  proof (cases "c = Continue")
    case True
    with Suc.prems have "passes n env reg m' s' w' = Some r"
      by (simp add: lb)
    then have "agent_loop env reg m' s' w' = Some r" by (rule Suc.IH)
    with True show ?thesis by (simp add: agent_loop_unfold[OF lb])
  next
    case False
    with Suc.prems show ?thesis
      by (cases c) (simp_all add: lb agent_loop_unfold[OF lb])
  qed
qed

text \<open>A loop that ends is left within some number of passes.\<close>

lemma agent_loop_passes:
  assumes "agent_loop env reg messages sent w = Some r"
  shows "\<exists>n. passes n env reg messages sent w = Some r"
proof (rule agent_loop.raw_induct[where P = "\<lambda>env reg m s w r. \<exists>n. passes n env reg m s w = Some r", OF _ assms])
  fix f :: "'a env \<Rightarrow> registry \<Rightarrow> message list \<Rightarrow> event list \<Rightarrow> 'a
    \<Rightarrow> (ctl \<times> message list \<times> event list \<times> 'a) option"
  fix env reg messages sent w r
  assume IH: "\<And>env reg m s w r. f env reg m s w = Some r \<Longrightarrow> \<exists>n. passes n env reg m s w = Some r"
  assume body: "(case loop_body env reg messages sent w of
        (Continue, messages', sent', w') \<Rightarrow> f env reg messages' sent' w'
      | (Break, messages', sent', w') \<Rightarrow> Some (Break, messages', sent', w')
      | (Throw err, messages', sent', w') \<Rightarrow> Some (Throw err, messages', sent', w')) = Some r"
  obtain c m' s' w' where lb: "loop_body env reg messages sent w = (c, m', s', w')"
    by (cases "loop_body env reg messages sent w") auto
  show "\<exists>n. passes n env reg messages sent w = Some r"
  proof (cases "c = Continue")
    case True
    with body lb have "f env reg m' s' w' = Some r" by simp
    from IH[OF this] obtain n where "passes n env reg m' s' w' = Some r" ..
    with True have "passes (Suc n) env reg messages sent w = Some r"
      by (simp add: lb)
    then show ?thesis ..
  next
    case False
    with body lb have "r = (c, m', s', w')" by (cases c) auto
    with False have "passes (Suc 0) env reg messages sent w = Some r"
      by (cases c) (simp_all add: lb)
    then show ?thesis ..
  qed
qed

text \<open>A loop that is still running after every number of passes never ends.\<close>

lemma agent_loop_diverges:
  assumes "\<And>n. passes n env reg messages sent w = None"
  shows "agent_loop env reg messages sent w = None"
proof (cases "agent_loop env reg messages sent w")
  case None
  then show ?thesis .
next
  case (Some r)
  from agent_loop_passes[OF this] obtain n where "passes n env reg messages sent w = Some r" ..
  with assms show ?thesis by simp
qed

text \<open>
  What a loop that ends has sent: tool events only, followed when the loop was left by
  \<^verbatim>\<open>break\<close> by the answer and the final conversation.
\<close>

lemma passes_sent:
  "passes n env reg messages sent w = Some (c, messages', sent', w') \<Longrightarrow>
     (c = Break \<longrightarrow> (\<exists>new t. sent' = sent @ new @ [Response t, Done messages'] \<and>
                         (\<forall>e\<in>set new. is_tool_event e))) \<and>
     (c \<noteq> Break \<longrightarrow> (\<exists>new. sent' = sent @ new \<and> (\<forall>e\<in>set new. is_tool_event e)))"
proof (induction n arbitrary: messages sent w)
  case 0
  then show ?case by simp
next
  case (Suc n)
  obtain c1 m1 s1 w1 where lb: "loop_body env reg messages sent w = (c1, m1, s1, w1)"
    by (cases "loop_body env reg messages sent w") auto
  note body = loop_body_sent[OF lb]
  show ?case
  proof (cases c1)
    case Continue
    with Suc.prems lb have "passes n env reg m1 s1 w1 = Some (c, messages', sent', w')" by simp
    note ih = Suc.IH[OF this]
    from body Continue obtain new1
      where n1: "s1 = sent @ new1" "\<forall>e\<in>set new1. is_tool_event e" by auto
    show ?thesis
    proof (cases "c = Break")
      case True
      with ih obtain new t
        where "sent' = s1 @ new @ [Response t, Done messages']" "\<forall>e\<in>set new. is_tool_event e"
        by blast
      with n1 have "sent' = sent @ (new1 @ new) @ [Response t, Done messages'] \<and>
          (\<forall>e\<in>set (new1 @ new). is_tool_event e)" by auto
      with True show ?thesis by blast
    next
      case False
      with ih obtain new where "sent' = s1 @ new" "\<forall>e\<in>set new. is_tool_event e" by blast
      with n1 have "sent' = sent @ (new1 @ new) \<and> (\<forall>e\<in>set (new1 @ new). is_tool_event e)"
        by auto
      with False show ?thesis by blast
    qed
  next
    case Break
    with Suc.prems lb have eq: "c = Break" "messages' = m1" "sent' = s1" by auto
    from body Break eq obtain t where "sent' = sent @ [] @ [Response t, Done messages']" by auto
    with eq show ?thesis by fastforce
  next
    case (Throw e)
    with Suc.prems lb have eq: "c = Throw e" "sent' = s1" by auto
    with body Throw show ?thesis by auto
  qed
qed

text \<open>Continuing passes do not end the loop, however many they are.\<close>

lemma rounds_agent_loop:
  "rounds n env reg messages sent w = Some (ms, ss, ws) \<Longrightarrow>
     agent_loop env reg messages sent w = agent_loop env reg ms ss ws"
proof (induction n arbitrary: messages sent w)
  case 0
  then show ?case by simp
next
  case (Suc n)
  obtain c m' s' w' where lb: "loop_body env reg messages sent w = (c, m', s', w')"
    by (cases "loop_body env reg messages sent w") auto
  from Suc.prems lb have c: "c = Continue" by (cases c) simp_all
  with Suc.prems lb have "rounds n env reg m' s' w' = Some (ms, ss, ws)" by simp
  from Suc.IH[OF this] c show ?case by (simp add: agent_loop_unfold[OF lb])
qed

text \<open>A loop left within \<open>n\<close> passes is left in a pass that follows continuing ones.\<close>

lemma passes_last_pass:
  "passes n env reg messages sent w = Some r \<Longrightarrow>
     \<exists>k ms ss ws. rounds k env reg messages sent w = Some (ms, ss, ws) \<and>
        loop_body env reg ms ss ws = r \<and> fst r \<noteq> Continue"
proof (induction n arbitrary: messages sent w)
  case 0
  then show ?case by simp
next
  case (Suc n)
  obtain c m' s' w' where lb: "loop_body env reg messages sent w = (c, m', s', w')"
    by (cases "loop_body env reg messages sent w") auto
  show ?case
  proof (cases "c = Continue")
    case True
    with Suc.prems lb have "passes n env reg m' s' w' = Some r" by simp
    from Suc.IH[OF this] obtain k ms ss ws where
      "rounds k env reg m' s' w' = Some (ms, ss, ws)" "loop_body env reg ms ss ws = r"
      "fst r \<noteq> Continue" by blast
    with lb True have "rounds (Suc k) env reg messages sent w = Some (ms, ss, ws) \<and>
        loop_body env reg ms ss ws = r \<and> fst r \<noteq> Continue" by simp
    then show ?thesis by blast
  next
    case False
    with Suc.prems lb have "r = (c, m', s', w')" by (cases c) auto
    with False lb have "rounds 0 env reg messages sent w = Some (messages, sent, w) \<and>
        loop_body env reg messages sent w = r \<and> fst r \<noteq> Continue" by simp
    then show ?thesis by blast
  qed
qed

text \<open>A loop that ends is left in a pass that follows some number of continuing passes.\<close>

lemma agent_loop_last_pass:
  assumes "agent_loop env reg messages sent w = Some (c, m', s', w')"
  shows "\<exists>n ms ss ws. rounds n env reg messages sent w = Some (ms, ss, ws) \<and>
           loop_body env reg ms ss ws = (c, m', s', w') \<and> c \<noteq> Continue"
proof -
  from agent_loop_passes[OF assms] obtain n
    where "passes n env reg messages sent w = Some (c, m', s', w')" by (rule exE)
  from passes_last_pass[OF this] show ?thesis by simp
qed

text \<open>A pass that does not continue: a plain answer, a failed query or a call that threw.\<close>

lemma loop_body_end_cases:
  assumes lb: "loop_body env reg ms ss ws = (c, m', s', w')" and nc: "c \<noteq> Continue"
  shows "(\<exists>answer. c = Break \<and>
             messages_create env ms (allTools reg) ws = (Inr answer, w') \<and>
             stop_reason answer \<noteq> ''tool_use'') \<or>
          (\<exists>err. c = Throw err \<and>
             messages_create env ms (allTools reg) ws = (Inl err, w')) \<or>
          (\<exists>err request w3 before bid name inp rest results sent1 w4. c = Throw err \<and>
             messages_create env ms (allTools reg) ws = (Inr request, w3) \<and>
             stop_reason request = ''tool_use'' \<and>
             content request = before @ ToolUse bid name inp # rest \<and>
             for_blocks env reg before ss [] w3 = (Inr results, sent1, w4) \<and>
             callMCPTool env reg name inp w4 = (Inl err, w'))"
proof (cases "messages_create env ms (allTools reg) ws")
  case (Pair r w1)
  show ?thesis
  proof (cases r)
    case (Inl err)
    from lb have "c = Throw err \<and> w' = w1"
      unfolding loop_body_engine_error[OF Pair[unfolded Inl]] by simp
    with Pair Inl have "c = Throw err \<and> messages_create env ms (allTools reg) ws = (Inl err, w')"
      by simp
    then show ?thesis by (intro disjI2 disjI1 exI[where x = err])
  next
    case (Inr resp)
    note eng = Pair[unfolded Inr]
    show ?thesis
    proof (cases "stop_reason resp = ''tool_use''")
      case False
      from lb have "c = Break \<and> w' = w1"
        unfolding loop_body_answer[OF eng False] by simp
      with eng False have "c = Break \<and> messages_create env ms (allTools reg) ws = (Inr resp, w') \<and>
          stop_reason resp \<noteq> ''tool_use''" by simp
      then show ?thesis by (intro disjI1 exI[where x = resp])
    next
      case True
      obtain out s2 w2 where fb: "for_blocks env reg (content resp) ss [] w1 = (out, s2, w2)"
        by (cases "for_blocks env reg (content resp) ss [] w1") auto
      show ?thesis
      proof (cases out)
        case (Inr trs)
        from lb nc show ?thesis
          unfolding loop_body_tool_use[OF eng True fb] Inr by simp
      next
        case (Inl err)
        from lb have cw: "c = Throw err" "w' = w2"
          unfolding loop_body_tool_use[OF eng True fb] Inl by simp_all
        from for_blocks_throw[OF fb[unfolded Inl]]
        obtain before bid name inp rest results sent1 w4 where
          1: "content resp = before @ ToolUse bid name inp # rest" and
          2: "for_blocks env reg before ss [] w1 = (Inr results, sent1, w4)" and
          3: "callMCPTool env reg name inp w4 = (Inl err, w2)" by blast
        have "c = Throw err \<and>
             messages_create env ms (allTools reg) ws = (Inr resp, w1) \<and>
             stop_reason resp = ''tool_use'' \<and>
             content resp = before @ ToolUse bid name inp # rest \<and>
             for_blocks env reg before ss [] w1 = (Inr results, sent1, w4) \<and>
             callMCPTool env reg name inp w4 = (Inl err, w')"
          using cw eng True 1 2 3 by simp
        then show ?thesis
          by (intro disjI2 exI[where x = err] exI[where x = resp] exI[where x = w1]
              exI[where x = before] exI[where x = bid] exI[where x = name] exI[where x = inp]
              exI[where x = rest] exI[where x = results] exI[where x = sent1] exI[where x = w4])
      qed
    qed
  qed
qed

text \<open>Against an engine that always requests tools, with calls that return, no pass is the last.\<close>

lemma requests_always_passes:
  assumes "requests_always env" and "calls_return env reg"
  shows "passes n env reg messages sent w = None"
proof (induction n arbitrary: messages sent w)
  case 0
  show ?case by simp
next
  case (Suc n)
  from assms(1) obtain resp w1 where eng: "messages_create env messages (allTools reg) w = (Inr resp, w1)"
    and tu: "stop_reason resp = ''tool_use''" unfolding requests_always_def by blast
  have ret: "\<And>bid name inp w2. ToolUse bid name inp \<in> set (content resp) \<Longrightarrow>
             \<exists>result w'. callMCPTool env reg name inp w2 = (Inr result, w')"
    using assms(2) eng unfolding calls_return_def by blast
  have "\<exists>trs s2 w2. for_blocks env reg (content resp) sent [] w1 = (Inr trs, s2, w2)"
    by (rule for_blocks_returns) (erule ret)
  then obtain trs s2 w2
    where fb: "for_blocks env reg (content resp) sent [] w1 = (Inr trs, s2, w2)" by blast
  from loop_body_tool_use[OF eng tu fb] Suc.IH show ?case by simp
qed

text \<open>The handler's stream, from a loop known to be left within \<open>n\<close> passes.\<close>

lemma chat_passes:
  assumes "passes n env reg (history @ [user_message msg]) [] w = Some r"
  shows "chat env reg msg history w = catch_end (Some r)"
  using passes_agent_loop[OF assms] by (simp add: chat_def)

section \<open>The sample inputs: lemmas\<close>

lemma sample_registry_routes:
  "toolServerMap sample_registry ''nope'' = None"
  "toolServerMap sample_registry ''create_item'' = Some Storage"
  by (simp_all add: sample_registry_def empty_registry_def create_item_meta_def)

lemma sample_call:
  "callMCPTool (scripted script) sample_registry ''create_item'' inp n = (Inr created_text, n)"
  by (simp add: callMCPTool_def sample_registry_routes scripted_def first_text_def text_segment_def)

lemma insistent_loop_body:
  "loop_body insistent sample_registry messages sent w =
     (Continue,
      messages @ [assistant_message [create_call],
                  results_message [\<lparr>tool_use_id = ''toolu_1'', result_content = created_text\<rparr>]],
      sent @ [Tool_call ''create_item'' (JObj [(''title'', JStr ''buy milk'')]),
              Tool_result ''create_item'' created_text],
      Suc w)"
  by (simp add: loop_body_def insistent_def requests_def create_call_def callMCPTool_def
      sample_registry_routes first_text_def text_segment_def)

lemma insistent_passes:
  "passes n insistent sample_registry messages sent w = None"
  by (induction n arbitrary: messages sent w) (simp_all add: insistent_loop_body)

lemma milk_passes:
  "passes (Suc (Suc 0)) (scripted [requests [create_call], answers ''Added!'']) sample_registry
          (history @ [user_message ''add buy milk'']) [] 0 =
        Some (Break, history @ milk_conversation, milk_events @ [Done (history @ milk_conversation)], 2)"
  by (simp add: loop_body_def scripted_def requests_def answers_def create_call_def callMCPTool_def
      sample_registry_routes first_text_def text_segment_def milk_conversation_def milk_events_def
      Let_def)

section \<open>Claims about the agent loop\<close>

subsection \<open>A tool call that throws\<close>

text \<open>
  Claim C1 says that a tool call which cannot be resolved or which fails is turned into a
  textual tool result, that no top-level error event is emitted for it, that the remaining
  calls of the round run and that the engine is queried again. The handler has one
  \<^verbatim>\<open>try\<close>/\<^verbatim>\<open>catch\<close> around the whole loop and none around a call, and it does the
  opposite: with an engine that requests the unregistered tool \<^verbatim>\<open>nope\<close>, the stream is
  the \<^verbatim>\<open>tool_call\<close> event followed by an \<^verbatim>\<open>error\<close> event, and the engine has been
  queried once.
\<close>

theorem unknown_tool_counterexample:
  "chat (scripted [requests [unknown_call], answers ''Sorry'']) sample_registry ''hello'' [] 0 =
     Some ([Tool_call ''nope'' JNull, Error ''No MCP server registered for tool: nope''], 1)"
proof -
  have "passes (Suc 0) (scripted [requests [unknown_call], answers ''Sorry'']) sample_registry
          ([] @ [user_message ''hello'']) [] 0 =
        Some (Throw ''No MCP server registered for tool: nope'',
              [user_message ''hello'', assistant_message [unknown_call]],
              [Tool_call ''nope'' JNull], 1)"
    by (simp add: loop_body_def scripted_def requests_def unknown_call_def callMCPTool_def
        sample_registry_routes)
  from chat_passes[OF this] show ?thesis
    by (simp add: catch_end_def)
qed

text \<open>
  C1, amended: in any pass of the loop in which the engine requests tools, if the calls
  before some tool-call block returned and resolving or invoking that block's tool throws
  (for an unregistered name, \<^verbatim>\<open>callMCPTool\<close> throws
  \<^verbatim>\<open>No MCP server registered for tool: <name>\<close>), then the stream ends with that call's
  \<^verbatim>\<open>tool_call\<close> event followed by one \<^verbatim>\<open>error\<close> event carrying the thrown message:
  there is no \<^verbatim>\<open>tool_result\<close> event for the call, the remaining calls of the round are
  not made, the engine is not queried again and no \<^verbatim>\<open>done\<close> event is sent.
\<close>

theorem failed_call_ends_turn:
  assumes "messages_create env messages (allTools reg) w = (Inr response, w1)"
    and "stop_reason response = ''tool_use''"
    and "content response = before @ ToolUse bid name inp # rest"
    and "for_blocks env reg before sent [] w1 = (Inr toolResults, sent1, w2)"
    and "callMCPTool env reg name inp w2 = (Inl err, w3)"
  shows "catch_end (agent_loop env reg messages sent w) =
           Some (sent1 @ [Tool_call name inp, Error err], w3)"
proof -
  have "for_blocks env reg (content response) sent [] w1 =
          (Inl err, sent1 @ [Tool_call name inp], w3)"
    using assms(3-5) by (simp add: for_blocks_append)
  from loop_body_tool_use[OF assms(1,2) this]
  have "loop_body env reg messages sent w =
          (Throw err, messages @ [assistant_message (content response)],
           sent1 @ [Tool_call name inp], w3)"
    by simp
  then show ?thesis
    by (simp add: agent_loop_unfold catch_end_def)
qed

theorem failed_call_ends_turn_witness:
  "chat (scripted [requests [create_call, unknown_call, create_call], answers ''Added!''])
        sample_registry ''add buy milk'' [] 0 =
     Some ([Tool_call ''create_item'' (JObj [(''title'', JStr ''buy milk'')]),
            Tool_result ''create_item'' created_text,
            Tool_call ''nope'' JNull,
            Error ''No MCP server registered for tool: nope''], 1)"
proof -
  let ?env = "scripted [requests [create_call, unknown_call, create_call], answers ''Added!'']"
  have 1: "messages_create ?env ([] @ [user_message ''add buy milk'']) (allTools sample_registry) 0 =
      (Inr (requests [create_call, unknown_call, create_call]), 1)"
    by (simp add: scripted_def)
  have 2: "stop_reason (requests [create_call, unknown_call, create_call]) = ''tool_use''"
    by (simp add: requests_def)
  have 3: "content (requests [create_call, unknown_call, create_call]) =
      [create_call] @ ToolUse ''toolu_0'' ''nope'' JNull # [create_call]"
    by (simp add: requests_def unknown_call_def)
  have 4: "for_blocks ?env sample_registry [create_call] [] [] 1 =
      (Inr [\<lparr>tool_use_id = ''toolu_1'', result_content = created_text\<rparr>],
       [Tool_call ''create_item'' (JObj [(''title'', JStr ''buy milk'')]),
        Tool_result ''create_item'' created_text], 1)"
    by (simp add: create_call_def callMCPTool_def sample_registry_routes scripted_def
        first_text_def text_segment_def)
  have 5: "callMCPTool ?env sample_registry ''nope'' JNull 1 =
      (Inl ''No MCP server registered for tool: nope'', 1)"
    by (simp add: callMCPTool_unregistered sample_registry_routes)
  from failed_call_ends_turn[OF 1 2 3 4 5] show ?thesis
    by (simp add: chat_def)
qed

subsection \<open>Two calls in one round\<close>

text \<open>
  Claim C3 says that every round in which the engine requests the tools A and B, in that
  order, sends exactly \<^verbatim>\<open>tool_call\<close> A, \<^verbatim>\<open>tool_result\<close> A, \<^verbatim>\<open>tool_call\<close> B,
  \<^verbatim>\<open>tool_result\<close> B. When the call of A throws, the round sends \<^verbatim>\<open>tool_call\<close> A
  only, B is never called, and the stream ends with an \<^verbatim>\<open>error\<close> event.
\<close>

theorem first_call_throws_counterexample:
  "chat (scripted [requests [unknown_call, create_call], answers ''Sorry'']) sample_registry
        ''hello'' [] 0 =
     Some ([Tool_call ''nope'' JNull, Error ''No MCP server registered for tool: nope''], 1)"
proof -
  have "passes (Suc 0) (scripted [requests [unknown_call, create_call], answers ''Sorry''])
          sample_registry ([] @ [user_message ''hello'']) [] 0 =
        Some (Throw ''No MCP server registered for tool: nope'',
              [user_message ''hello'', assistant_message [unknown_call, create_call]],
              [Tool_call ''nope'' JNull], 1)"
    by (simp add: loop_body_def scripted_def requests_def unknown_call_def callMCPTool_def
        sample_registry_routes)
  from chat_passes[OF this] show ?thesis
    by (simp add: catch_end_def)
qed

text \<open>
  C3, amended: in every pass of the loop in which the engine's response requests tools and
  its tool-call blocks are A then B (blocks of other types may stand between them), if
  both invocations return a result, then the events the pass sends are exactly, in order,
  \<^verbatim>\<open>tool_call\<close> A, \<^verbatim>\<open>tool_result\<close> A with the result of A, \<^verbatim>\<open>tool_call\<close> B,
  \<^verbatim>\<open>tool_result\<close> B with the result of B; B is invoked in the world A left, both results
  are appended to the conversation in one message in the same order, and the loop goes on
  to query the engine again.
\<close>

theorem two_calls_in_order:
  assumes "messages_create env messages (allTools reg) w = (Inr response, w1)"
    and "stop_reason response = ''tool_use''"
    and "filter is_tool_use (content response) = [ToolUse idA nameA inA, ToolUse idB nameB inB]"
    and "callMCPTool env reg nameA inA w1 = (Inr resultA, w2)"
    and "callMCPTool env reg nameB inB w2 = (Inr resultB, w3)"
  shows "loop_body env reg messages sent w =
     (Continue,
      messages @ [assistant_message (content response),
                  results_message [\<lparr>tool_use_id = idA, result_content = resultA\<rparr>,
                                   \<lparr>tool_use_id = idB, result_content = resultB\<rparr>]],
      sent @ [Tool_call nameA inA, Tool_result nameA resultA,
              Tool_call nameB inB, Tool_result nameB resultB],
      w3)"
proof -
  have "for_blocks env reg (filter is_tool_use (content response)) sent [] w1 =
      (Inr [\<lparr>tool_use_id = idA, result_content = resultA\<rparr>,
            \<lparr>tool_use_id = idB, result_content = resultB\<rparr>],
       sent @ [Tool_call nameA inA, Tool_result nameA resultA,
               Tool_call nameB inB, Tool_result nameB resultB], w3)"
    using assms(4,5) by (simp add: assms(3))
  then have "for_blocks env reg (content response) sent [] w1 =
      (Inr [\<lparr>tool_use_id = idA, result_content = resultA\<rparr>,
            \<lparr>tool_use_id = idB, result_content = resultB\<rparr>],
       sent @ [Tool_call nameA inA, Tool_result nameA resultA,
               Tool_call nameB inB, Tool_result nameB resultB], w3)"
    by (simp only: for_blocks_filter)
  from loop_body_tool_use[OF assms(1,2) this] show ?thesis by simp
qed

theorem two_calls_in_order_witness:
  "loop_body (scripted [requests [TextBlock ''On it.'', create_call, eggs_call]]) sample_registry
     [user_message ''add buy milk twice''] [] 0 =
     (Continue,
      [user_message ''add buy milk twice'',
       assistant_message [TextBlock ''On it.'', create_call, eggs_call],
       results_message [\<lparr>tool_use_id = ''toolu_1'', result_content = created_text\<rparr>,
                        \<lparr>tool_use_id = ''toolu_2'', result_content = created_text\<rparr>]],
      [Tool_call ''create_item'' (JObj [(''title'', JStr ''buy milk'')]),
       Tool_result ''create_item'' created_text,
       Tool_call ''create_item'' (JObj [(''title'', JStr ''buy eggs'')]),
       Tool_result ''create_item'' created_text],
      1)"
proof -
  let ?env = "scripted [requests [TextBlock ''On it.'', create_call, eggs_call]]"
  let ?resp = "requests [TextBlock ''On it.'', create_call, eggs_call]"
  have 1: "messages_create ?env [user_message ''add buy milk twice''] (allTools sample_registry) 0 =
      (Inr ?resp, 1)"
    by (simp add: scripted_def)
  have 2: "stop_reason ?resp = ''tool_use''" by (simp add: requests_def)
  have 3: "filter is_tool_use (content ?resp) =
      [ToolUse ''toolu_1'' ''create_item'' (JObj [(''title'', JStr ''buy milk'')]),
       ToolUse ''toolu_2'' ''create_item'' (JObj [(''title'', JStr ''buy eggs'')])]"
    by (simp add: requests_def create_call_def eggs_call_def)
  from two_calls_in_order[OF 1 2 3 sample_call sample_call, of "[]"] show ?thesis
    by (simp add: requests_def)
qed

subsection \<open>A plain answer\<close>

text \<open>
  Claim C4: when the engine's first response is a plain answer (its stop reason is not
  \<^verbatim>\<open>tool_use\<close>), the stream is exactly one \<^verbatim>\<open>response\<close> event, with the text of the
  first text block of the answer, followed by one \<^verbatim>\<open>done\<close> event carrying the full
  updated conversation: the history, the new user message and the assistant's answer. No
  \<^verbatim>\<open>tool_call\<close> or \<^verbatim>\<open>tool_result\<close> event is sent.
\<close>

theorem plain_answer_turn:
  assumes "messages_create env (history @ [user_message msg]) (allTools reg) w = (Inr response, w1)"
    and "stop_reason response \<noteq> ''tool_use''"
  shows "chat env reg msg history w =
     Some ([Response (find_text (content response)),
            Done (history @ [user_message msg, assistant_message (content response)])], w1)"
  using loop_body_answer[OF assms, of "[]"]
  by (simp add: chat_def agent_loop_unfold catch_end_def)

theorem plain_answer_turn_witness:
  "chat (scripted [answers ''Hello!'']) sample_registry ''hi'' [] 0 =
     Some ([Response ''Hello!'',
            Done [user_message ''hi'', assistant_message [TextBlock ''Hello!'']]], 1)"
proof -
  have 1: "messages_create (scripted [answers ''Hello!'']) ([] @ [user_message ''hi''])
             (allTools sample_registry) 0 = (Inr (answers ''Hello!''), 1)"
    by (simp add: scripted_def)
  have 2: "stop_reason (answers ''Hello!'') \<noteq> ''tool_use''" by (simp add: answers_def)
  from plain_answer_turn[OF 1 2] show ?thesis by (simp add: answers_def)
qed

subsection \<open>The text of a tool result\<close>

text \<open>
  Claim C5: when the tool is registered and the provider's call returns, what
  \<^verbatim>\<open>callMCPTool\<close> gives the loop is the text of the first segment of the result's
  content; it is the empty string when no segment of the content has a text, and when the
  content is empty. (It is also the empty string whenever the first segment has no text,
  whatever follows it.)
\<close>

theorem callMCPTool_first_text:
  assumes "toolServerMap reg name = Some srv"
    and "callTool env srv name args w = (Inr cont, w')"
  shows "\<exists>text. callMCPTool env reg name args w = (Inr text, w') \<and>
     (\<forall>seg rest t. cont = seg # rest \<and> seg_text seg = Some t \<longrightarrow> text = t) \<and>
     (\<forall>seg rest. cont = seg # rest \<and> seg_text seg = None \<longrightarrow> text = []) \<and>
     ((\<forall>seg\<in>set cont. seg_text seg = None) \<longrightarrow> text = []) \<and>
     (cont = [] \<longrightarrow> text = [])"
  using assms by (auto simp: callMCPTool_def first_text_def split: list.splits option.splits)

theorem callMCPTool_first_text_witness:
  "callMCPTool (scripted []) sample_registry ''create_item'' JNull 0 = (Inr created_text, 0)"
proof -
  have 1: "toolServerMap sample_registry ''create_item'' = Some Storage"
    by (simp add: sample_registry_routes)
  have 2: "callTool (scripted []) Storage ''create_item'' JNull 0 =
      (Inr [text_segment created_text], 0)"
    by (simp add: scripted_def)
  from callMCPTool_first_text[OF 1 2] show ?thesis
    by (auto simp: text_segment_def)
qed

subsection \<open>A turn that fails\<close>

text \<open>
  Claim C6: when the loop is left by a throw (the engine query failed, see
  \<open>agent_loop_engine_error\<close>, or a tool call threw), the handler sends one \<^verbatim>\<open>error\<close>
  event with the thrown message and ends the stream. That event is the only \<^verbatim>\<open>error\<close>
  event of the stream and its last event, and the stream has no \<^verbatim>\<open>done\<close> event.
\<close>

theorem turn_fatal_error:
  assumes "agent_loop env reg (history @ [user_message msg]) [] w =
             Some (Throw err, messages', sent', w')"
  shows "chat env reg msg history w = Some (sent' @ [Error err], w') \<and>
         filter is_error (sent' @ [Error err]) = [Error err] \<and>
         filter is_done (sent' @ [Error err]) = []"
proof -
  from agent_loop_passes[OF assms] obtain n where
    "passes n env reg (history @ [user_message msg]) [] w = Some (Throw err, messages', sent', w')" ..
  from passes_sent[OF this] have tool: "\<forall>e\<in>set sent'. is_tool_event e" by simp
  have "\<And>e. is_tool_event e \<Longrightarrow> \<not> is_error e \<and> \<not> is_done e"
    by (case_tac e) simp_all
  with tool have "filter is_error sent' = []" "filter is_done sent' = []"
    by (simp_all add: filter_empty_conv)
  moreover have "chat env reg msg history w = Some (sent' @ [Error err], w')"
    using assms by (simp add: chat_def catch_end_def)
  ultimately show ?thesis by simp
qed

theorem turn_fatal_error_witness:
  "chat (scripted [requests [create_call]]) sample_registry ''add buy milk'' [] 0 =
     Some ([Tool_call ''create_item'' (JObj [(''title'', JStr ''buy milk'')]),
            Tool_result ''create_item'' created_text,
            Error ''engine unavailable''], 2)"
proof -
  have "passes (Suc (Suc 0)) (scripted [requests [create_call]]) sample_registry
          ([] @ [user_message ''add buy milk'']) [] 0 =
        Some (Throw ''engine unavailable'',
              [user_message ''add buy milk'', assistant_message [create_call],
               results_message [\<lparr>tool_use_id = ''toolu_1'', result_content = created_text\<rparr>]],
              [Tool_call ''create_item'' (JObj [(''title'', JStr ''buy milk'')]),
               Tool_result ''create_item'' created_text], 2)"
    by (simp add: loop_body_def scripted_def requests_def create_call_def callMCPTool_def
        sample_registry_routes first_text_def text_segment_def)
  from turn_fatal_error[OF passes_agent_loop[OF this]] show ?thesis by simp
qed

subsection \<open>No bound on the number of rounds\<close>

text \<open>
  Claim C7 says that the loop enforces a maximum round count, so that it ends even against
  an engine that requests tools on every round, and reports \<^verbatim>\<open>LoopBoundExceeded\<close> when
  the count is exceeded. The loop is \<^verbatim>\<open>while (true)\<close> with no counter: against an engine
  that requests a (registered, answering) tool on every query the handler never ends, and
  reports nothing.
\<close>

theorem insistent_engine_counterexample:
  "chat insistent sample_registry ''add buy milk'' [] 0 = None"
  by (simp add: chat_def catch_end_def agent_loop_diverges[OF insistent_passes])

text \<open>
  C7, amended: the loop enforces no maximum round count and has no
  \<^verbatim>\<open>LoopBoundExceeded\<close> condition. Whatever the conversation so far, a round in which
  the engine requests tools and every tool call returns is followed by another engine
  query, and a plain answer of the engine ends the loop at once, by \<^verbatim>\<open>break\<close>. When the
  loop ends, it was left, after some number of continuing rounds, by \<^verbatim>\<open>break\<close> on a
  plain answer, or by the error a failing engine query threw, or by the error a tool call
  of the last round threw: the loop raises no error of its own. Against an engine that
  requests tools on every query, with requested calls that always return, the loop never
  ends.
\<close>

theorem loop_has_no_round_cap:
  "(messages_create env messages (allTools reg) w = (Inr resp, w1) \<and>
    stop_reason resp = ''tool_use'' \<and>
    for_blocks env reg (content resp) sent [] w1 = (Inr toolResults, sent2, w2) \<longrightarrow>
      agent_loop env reg messages sent w =
        agent_loop env reg
          (messages @ [assistant_message (content resp), results_message toolResults]) sent2 w2) \<and>
   (messages_create env messages (allTools reg) w = (Inr resp, w1) \<and>
    stop_reason resp \<noteq> ''tool_use'' \<longrightarrow>
      agent_loop env reg messages sent w =
        Some (Break, messages @ [assistant_message (content resp)],
              sent @ [Response (find_text (content resp)),
                      Done (messages @ [assistant_message (content resp)])], w1)) \<and>
   (agent_loop env reg messages sent w = Some (c, m', s', w') \<longrightarrow>
      (\<exists>n ms ss ws. rounds n env reg messages sent w = Some (ms, ss, ws) \<and>
         ((\<exists>answer. c = Break \<and>
             messages_create env ms (allTools reg) ws = (Inr answer, w') \<and>
             stop_reason answer \<noteq> ''tool_use'') \<or>
          (\<exists>err. c = Throw err \<and>
             messages_create env ms (allTools reg) ws = (Inl err, w')) \<or>
          (\<exists>err request w3 before bid name inp rest results sent1 w4. c = Throw err \<and>
             messages_create env ms (allTools reg) ws = (Inr request, w3) \<and>
             stop_reason request = ''tool_use'' \<and>
             content request = before @ ToolUse bid name inp # rest \<and>
             for_blocks env reg before ss [] w3 = (Inr results, sent1, w4) \<and>
             callMCPTool env reg name inp w4 = (Inl err, w'))))) \<and>
   (requests_always env \<and> calls_return env reg \<longrightarrow>
      agent_loop env reg messages sent w = None)"
proof (intro conjI impI)
  assume "messages_create env messages (allTools reg) w = (Inr resp, w1) \<and>
    stop_reason resp = ''tool_use'' \<and>
    for_blocks env reg (content resp) sent [] w1 = (Inr toolResults, sent2, w2)"
  then have "loop_body env reg messages sent w =
      (Continue, messages @ [assistant_message (content resp), results_message toolResults], sent2, w2)"
    using loop_body_tool_use[of env messages reg w resp w1 sent "Inr toolResults" sent2 w2] by simp
  then show "agent_loop env reg messages sent w =
        agent_loop env reg
          (messages @ [assistant_message (content resp), results_message toolResults]) sent2 w2"
    by (simp add: agent_loop_unfold)
next
  assume "messages_create env messages (allTools reg) w = (Inr resp, w1) \<and>
    stop_reason resp \<noteq> ''tool_use''"
  then have "loop_body env reg messages sent w =
     (Break, messages @ [assistant_message (content resp)],
      sent @ [Response (find_text (content resp)),
              Done (messages @ [assistant_message (content resp)])], w1)"
    using loop_body_answer[of env messages reg w resp w1 sent] by simp
  then show "agent_loop env reg messages sent w =
        Some (Break, messages @ [assistant_message (content resp)],
              sent @ [Response (find_text (content resp)),
                      Done (messages @ [assistant_message (content resp)])], w1)"
    by (simp add: agent_loop_unfold)
next
  assume "agent_loop env reg messages sent w = Some (c, m', s', w')"
  from agent_loop_last_pass[OF this] obtain n ms ss ws
    where r: "rounds n env reg messages sent w = Some (ms, ss, ws)"
      and lb: "loop_body env reg ms ss ws = (c, m', s', w')" and nc: "c \<noteq> Continue"
    by (elim exE conjE)
  from r loop_body_end_cases[OF lb nc]
  have "rounds n env reg messages sent w = Some (ms, ss, ws) \<and>
         ((\<exists>answer. c = Break \<and>
             messages_create env ms (allTools reg) ws = (Inr answer, w') \<and>
             stop_reason answer \<noteq> ''tool_use'') \<or>
          (\<exists>err. c = Throw err \<and>
             messages_create env ms (allTools reg) ws = (Inl err, w')) \<or>
          (\<exists>err request w3 before bid name inp rest results sent1 w4. c = Throw err \<and>
             messages_create env ms (allTools reg) ws = (Inr request, w3) \<and>
             stop_reason request = ''tool_use'' \<and>
             content request = before @ ToolUse bid name inp # rest \<and>
             for_blocks env reg before ss [] w3 = (Inr results, sent1, w4) \<and>
             callMCPTool env reg name inp w4 = (Inl err, w')))" by (rule conjI)
  then show "\<exists>n ms ss ws. rounds n env reg messages sent w = Some (ms, ss, ws) \<and>
         ((\<exists>answer. c = Break \<and>
             messages_create env ms (allTools reg) ws = (Inr answer, w') \<and>
             stop_reason answer \<noteq> ''tool_use'') \<or>
          (\<exists>err. c = Throw err \<and>
             messages_create env ms (allTools reg) ws = (Inl err, w')) \<or>
          (\<exists>err request w3 before bid name inp rest results sent1 w4. c = Throw err \<and>
             messages_create env ms (allTools reg) ws = (Inr request, w3) \<and>
             stop_reason request = ''tool_use'' \<and>
             content request = before @ ToolUse bid name inp # rest \<and>
             for_blocks env reg before ss [] w3 = (Inr results, sent1, w4) \<and>
             callMCPTool env reg name inp w4 = (Inl err, w')))"
    by (intro exI)
next
  assume "requests_always env \<and> calls_return env reg"
  then have a: "requests_always env" and b: "calls_return env reg" by simp_all
  show "agent_loop env reg messages sent w = None"
    by (rule agent_loop_diverges) (rule requests_always_passes[OF a b])
qed


theorem loop_has_no_round_cap_witness:
  "agent_loop (scripted [requests [create_call], answers ''Added!'']) sample_registry
     [user_message ''add buy milk''] [] 0 =
     Some (Break, milk_conversation, milk_events @ [Done milk_conversation], 2) \<and>
   (\<exists>n ms ss ws answer.
      rounds n (scripted [requests [create_call], answers ''Added!'']) sample_registry
        [user_message ''add buy milk''] [] 0 = Some (ms, ss, ws) \<and>
      messages_create (scripted [requests [create_call], answers ''Added!'']) ms
        (allTools sample_registry) ws = (Inr answer, 2) \<and>
      stop_reason answer \<noteq> ''tool_use'') \<and>
   agent_loop insistent sample_registry [user_message ''add buy milk''] [] 0 = None"
proof -
  let ?env = "scripted [requests [create_call], answers ''Added!'']"
  let ?m0 = "[user_message ''add buy milk'']"
  let ?tr = "[\<lparr>tool_use_id = ''toolu_1'', result_content = created_text\<rparr>]"
  let ?s1 = "[Tool_call ''create_item'' (JObj [(''title'', JStr ''buy milk'')]),
              Tool_result ''create_item'' created_text]"
  let ?m1 = "?m0 @ [assistant_message (content (requests [create_call])), results_message ?tr]"
  let ?r = "(Break, milk_conversation, milk_events @ [Done milk_conversation], 2::nat)"
  have a1: "messages_create ?env ?m0 (allTools sample_registry) 0 = (Inr (requests [create_call]), 1) \<and>
      stop_reason (requests [create_call]) = ''tool_use'' \<and>
      for_blocks ?env sample_registry (content (requests [create_call])) [] [] 1 = (Inr ?tr, ?s1, 1)"
  proof -
    have "messages_create ?env ?m0 (allTools sample_registry) 0 = (Inr (requests [create_call]), 1)"
      by (simp add: scripted_def)
    moreover have "for_blocks ?env sample_registry
        [ToolUse ''toolu_1'' ''create_item'' (JObj [(''title'', JStr ''buy milk'')])] [] [] 1 =
        (Inr ?tr, ?s1, 1)"
      by (simp add: sample_call)
    ultimately show ?thesis by (simp add: requests_def create_call_def)
  qed
  have first: "agent_loop ?env sample_registry ?m0 [] 0 = agent_loop ?env sample_registry ?m1 ?s1 1"
    using loop_has_no_round_cap[where env = "?env" and reg = sample_registry and messages = "?m0"
        and sent = "[]" and w = 0 and resp = "requests [create_call]" and ?w1.0 = 1
        and toolResults = "?tr" and ?sent2.0 = "?s1" and ?w2.0 = 1, THEN conjunct1] a1
    by (rule mp)
  have a2: "messages_create ?env ?m1 (allTools sample_registry) 1 = (Inr (answers ''Added!''), 2) \<and>
      stop_reason (answers ''Added!'') \<noteq> ''tool_use''"
    by (simp add: scripted_def answers_def)
  have "agent_loop ?env sample_registry ?m1 ?s1 1 =
      Some (Break, ?m1 @ [assistant_message (content (answers ''Added!''))],
            ?s1 @ [Response (find_text (content (answers ''Added!''))),
                   Done (?m1 @ [assistant_message (content (answers ''Added!''))])], 2)"
    using loop_has_no_round_cap[where env = "?env" and reg = sample_registry and messages = "?m1"
        and sent = "?s1" and w = 1 and resp = "answers ''Added!''" and ?w1.0 = 2,
        THEN conjunct2, THEN conjunct1] a2
    by (rule mp)
  with first have ends: "agent_loop ?env sample_registry ?m0 [] 0 = Some ?r"
    by (simp add: milk_conversation_def milk_events_def requests_def answers_def)
  have "\<exists>n ms ss ws.
      rounds n ?env sample_registry ?m0 [] 0 = Some (ms, ss, ws) \<and>
      ((\<exists>answer. Break = Break \<and>
          messages_create ?env ms (allTools sample_registry) ws = (Inr answer, 2) \<and>
          stop_reason answer \<noteq> ''tool_use'') \<or>
       (\<exists>err. Break = Throw err \<and>
          messages_create ?env ms (allTools sample_registry) ws = (Inl err, 2)) \<or>
       (\<exists>err request w3 before bid name inp rest results sent1 w4. Break = Throw err \<and>
          messages_create ?env ms (allTools sample_registry) ws = (Inr request, w3) \<and>
          stop_reason request = ''tool_use'' \<and>
          content request = before @ ToolUse bid name inp # rest \<and>
          for_blocks ?env sample_registry before ss [] w3 = (Inr results, sent1, w4) \<and>
          callMCPTool ?env sample_registry name inp w4 = (Inl err, 2)))"
    using loop_has_no_round_cap[where env = "?env" and reg = sample_registry and messages = "?m0"
        and sent = "[]" and w = 0 and c = Break and m' = milk_conversation
        and s' = "milk_events @ [Done milk_conversation]" and w' = 2,
        THEN conjunct2, THEN conjunct2, THEN conjunct1] ends
    by (rule mp)
  then have last: "\<exists>n ms ss ws answer.
      rounds n ?env sample_registry ?m0 [] 0 = Some (ms, ss, ws) \<and>
      messages_create ?env ms (allTools sample_registry) ws = (Inr answer, 2) \<and>
      stop_reason answer \<noteq> ''tool_use''"
    by (elim exE conjE disjE) (simp_all, blast)
  have a4: "requests_always insistent \<and> calls_return insistent sample_registry"
    by (simp add: requests_always_def calls_return_def insistent_def requests_def create_call_def
        callMCPTool_def sample_registry_routes)
  have never: "agent_loop insistent sample_registry ?m0 [] 0 = None"
    using loop_has_no_round_cap[where env = insistent and reg = sample_registry
        and messages = "?m0" and sent = "[]" and w = 0,
        THEN conjunct2, THEN conjunct2, THEN conjunct2] a4
    by (rule mp)
  from ends last never show ?thesis by (intro conjI)
qed

subsection \<open>One tool call, then the answer\<close>

text \<open>
  Claim C8 says that the conversation carried by the final event of a turn with one tool
  call and then an answer has the length of the prior conversation plus 3. The handler
  appends four messages: the new user message, the assistant's tool request, the message
  with the tool results and the assistant's answer. With an empty prior conversation the
  final conversation has length 4.
\<close>

theorem one_call_length_counterexample:
  "chat (scripted [requests [create_call], answers ''Added!'']) sample_registry ''add buy milk'' [] 0 =
     Some (milk_events @ [Done milk_conversation], 2) \<and>
   length milk_conversation = length ([] :: message list) + 4 \<and>
   length milk_conversation \<noteq> length ([] :: message list) + 3"
  using chat_passes[OF milk_passes[of "[]"]]
  by (simp add: catch_end_def milk_conversation_def)

text \<open>
  C8, amended: for every turn of exactly one round with one tool call (which returns)
  followed by a final answer, the events are \<^verbatim>\<open>tool_call\<close>, \<^verbatim>\<open>tool_result\<close> carrying
  the text of the provider's result, \<^verbatim>\<open>response\<close> carrying the answer text, then
  \<^verbatim>\<open>done\<close>, and the conversation carried by \<^verbatim>\<open>done\<close> is the prior conversation
  followed by the user message, the assistant's tool request, the tool results and the
  assistant's answer: its length is the prior conversation's length plus 4.
\<close>

theorem one_call_turn:
  assumes "messages_create env (history @ [user_message msg]) (allTools reg) w = (Inr r1, w1)"
    and "stop_reason r1 = ''tool_use''"
    and "filter is_tool_use (content r1) = [ToolUse bid name inp]"
    and "toolServerMap reg name = Some srv"
    and "callTool env srv name inp w1 = (Inr cont, w2)"
    and "messages_create env
           (history @ [user_message msg, assistant_message (content r1),
                       results_message [\<lparr>tool_use_id = bid, result_content = first_text cont\<rparr>]])
           (allTools reg) w2 = (Inr r2, w3)"
    and "stop_reason r2 \<noteq> ''tool_use''"
  shows "\<exists>conversation.
     chat env reg msg history w =
       Some ([Tool_call name inp, Tool_result name (first_text cont),
              Response (find_text (content r2)), Done conversation], w3) \<and>
     conversation = history @ [user_message msg, assistant_message (content r1),
                       results_message [\<lparr>tool_use_id = bid, result_content = first_text cont\<rparr>],
                       assistant_message (content r2)] \<and>
     length conversation = length history + 4"
proof -
  have call: "callMCPTool env reg name inp w1 = (Inr (first_text cont), w2)"
    using assms(4,5) by (simp add: callMCPTool_def)
  have "for_blocks env reg (filter is_tool_use (content r1)) [] [] w1 =
      (Inr [\<lparr>tool_use_id = bid, result_content = first_text cont\<rparr>],
       [Tool_call name inp, Tool_result name (first_text cont)], w2)"
    using call by (simp add: assms(3))
  then have "for_blocks env reg (content r1) [] [] w1 =
      (Inr [\<lparr>tool_use_id = bid, result_content = first_text cont\<rparr>],
       [Tool_call name inp, Tool_result name (first_text cont)], w2)"
    by (simp only: for_blocks_filter)
  from loop_body_tool_use[OF assms(1,2) this]
  have lb1: "loop_body env reg (history @ [user_message msg]) [] w =
     (Continue, history @ [user_message msg, assistant_message (content r1),
                       results_message [\<lparr>tool_use_id = bid, result_content = first_text cont\<rparr>]],
      [Tool_call name inp, Tool_result name (first_text cont)], w2)" by simp
  from loop_body_answer[OF assms(6,7), of "[Tool_call name inp, Tool_result name (first_text cont)]"]
  have lb2: "loop_body env reg (history @ [user_message msg, assistant_message (content r1),
                       results_message [\<lparr>tool_use_id = bid, result_content = first_text cont\<rparr>]])
       [Tool_call name inp, Tool_result name (first_text cont)] w2 =
     (Break, history @ [user_message msg, assistant_message (content r1),
                       results_message [\<lparr>tool_use_id = bid, result_content = first_text cont\<rparr>],
                       assistant_message (content r2)],
      [Tool_call name inp, Tool_result name (first_text cont),
       Response (find_text (content r2)),
       Done (history @ [user_message msg, assistant_message (content r1),
                       results_message [\<lparr>tool_use_id = bid, result_content = first_text cont\<rparr>],
                       assistant_message (content r2)])], w3)" by simp
  show ?thesis
    by (simp add: chat_def agent_loop_unfold[OF lb1] agent_loop_unfold[OF lb2] catch_end_def)
qed

theorem one_call_turn_witness:
  "chat (scripted [requests [create_call], answers ''Added!'']) sample_registry
        ''add buy milk'' greeting 0 =
     Some (milk_events @ [Done (greeting @ milk_conversation)], 2) \<and>
   length (greeting @ milk_conversation) = length greeting + 4"
proof -
  let ?env = "scripted [requests [create_call], answers ''Added!'']"
  have 1: "messages_create ?env (greeting @ [user_message ''add buy milk''])
             (allTools sample_registry) 0 = (Inr (requests [create_call]), 1)"
    by (simp add: scripted_def)
  have 2: "stop_reason (requests [create_call]) = ''tool_use''" by (simp add: requests_def)
  have 3: "filter is_tool_use (content (requests [create_call])) =
      [ToolUse ''toolu_1'' ''create_item'' (JObj [(''title'', JStr ''buy milk'')])]"
    by (simp add: requests_def create_call_def)
  have 4: "toolServerMap sample_registry ''create_item'' = Some Storage"
    by (simp add: sample_registry_routes)
  have 5: "callTool ?env Storage ''create_item'' (JObj [(''title'', JStr ''buy milk'')]) 1 =
      (Inr [text_segment created_text], 1)"
    by (simp add: scripted_def)
  have 6: "messages_create ?env
      (greeting @ [user_message ''add buy milk'', assistant_message (content (requests [create_call])),
         results_message [\<lparr>tool_use_id = ''toolu_1'',
                           result_content = first_text [text_segment created_text]\<rparr>]])
      (allTools sample_registry) 1 = (Inr (answers ''Added!''), 2)"
    by (simp add: scripted_def)
  have 7: "stop_reason (answers ''Added!'') \<noteq> ''tool_use''" by (simp add: answers_def)
  from one_call_turn[OF 1 2 3 4 5 6 7] show ?thesis
    by (auto simp: milk_events_def milk_conversation_def requests_def answers_def create_call_def
        first_text_def text_segment_def)
qed

section \<open>Claims about the registry\<close>

text \<open>
  Claim C2 says that registering a tool name that already exists under a different server
  is rejected and aborts startup. \<^verbatim>\<open>initMCP\<close> calls \<^verbatim>\<open>toolServerMap.set\<close> without
  looking the name up first: when both servers declare \<^verbatim>\<open>list_todos\<close>, startup succeeds,
  the name is routed to the second server and \<^verbatim>\<open>allTools\<close> holds both declarations.
\<close>

theorem duplicate_name_counterexample:
  "initMCP (Inr [list_todos_meta]) (Inr [list_todos_meta]) =
     Inr \<lparr>toolServerMap = [''list_todos'' \<mapsto> Ai],
          allTools = [to_decl list_todos_meta, to_decl list_todos_meta]\<rparr>"
  by (simp add: initMCP_def empty_registry_def list_todos_meta_def)

text \<open>
  C2, amended: when both servers have answered the discovery, \<^verbatim>\<open>initMCP\<close> always
  succeeds; a name declared by both servers is not rejected. After startup every declared
  tool name has exactly one route, to the last server that declared it (the ai server when
  both did, else the storage server), no other name has a route, and \<^verbatim>\<open>allTools\<close> lists
  the declarations of the storage server followed by those of the ai server, duplicates
  included.
\<close>

theorem initMCP_routes:
  "\<exists>reg. initMCP (Inr storageTools) (Inr aiTools) = Inr reg \<and>
     (\<forall>n. toolServerMap reg n =
        (if n \<in> meta_name ` set aiTools then Some Ai
         else if n \<in> meta_name ` set storageTools then Some Storage
         else None)) \<and>
     allTools reg = map to_decl storageTools @ map to_decl aiTools"
  by (simp add: initMCP_def register_tools_map register_tools_all empty_registry_def)

theorem initMCP_routes_witness:
  "\<not> isl (initMCP (Inr [create_item_meta, list_todos_meta]) (Inr [list_todos_meta])) \<and>
   toolServerMap (projr (initMCP (Inr [create_item_meta, list_todos_meta]) (Inr [list_todos_meta])))
     ''list_todos'' = Some Ai \<and>
   toolServerMap (projr (initMCP (Inr [create_item_meta, list_todos_meta]) (Inr [list_todos_meta])))
     ''create_item'' = Some Storage \<and>
   toolServerMap (projr (initMCP (Inr [create_item_meta, list_todos_meta]) (Inr [list_todos_meta])))
     ''nope'' = None \<and>
   length (allTools (projr (initMCP (Inr [create_item_meta, list_todos_meta]) (Inr [list_todos_meta])))) = 3"
  using initMCP_routes[of "[create_item_meta, list_todos_meta]" "[list_todos_meta]"]
  by (auto simp: create_item_meta_def list_todos_meta_def)

section \<open>Claims about the record store\<close>

text \<open>
  Claim C9: for every data file and every id that no stored todo has, \<^verbatim>\<open>update_todo\<close>,
  \<^verbatim>\<open>complete_todo\<close> and \<^verbatim>\<open>delete_todo\<close> called with that id answer the text
  \<^verbatim>\<open>No todo found with ID <id>\<close> and leave the data file as it was: nothing is
  written. (An absent id is never found either, and is rendered as \<^verbatim>\<open>undefined\<close>.)
\<close>

theorem not_found_leaves_store:
  assumes "\<forall>t\<in>set (readTodos file). Some (todo_id t) \<noteq> arg_id args"
    and "name = ''update_todo'' \<or> name = ''complete_todo'' \<or> name = ''delete_todo''"
  shows "call_tool clk name args file =
           (Inr [text_segment (''No todo found with ID '' @ js_str (arg_id args))], file)"
proof -
  have "findIndex (\<lambda>t. Some (todo_id t) = arg_id args) (readTodos file) = None"
    using assms(1) by (simp add: findIndex_None)
  then show ?thesis using assms(2)
    by (auto simp: call_tool_def Let_def reply_def)
qed

theorem not_found_leaves_store_witness:
  "call_tool sample_clock ''delete_todo'' (no_args\<lparr>arg_id := Some ''7''\<rparr>)
     (Some [milk_todo, review_todo]) =
     (Inr [text_segment ''No todo found with ID 7''], Some [milk_todo, review_todo]) \<and>
   call_tool sample_clock ''update_todo'' (no_args\<lparr>arg_id := Some ''7'', arg_title := Some ''x''\<rparr>)
     (Some [milk_todo, review_todo]) =
     (Inr [text_segment ''No todo found with ID 7''], Some [milk_todo, review_todo]) \<and>
   call_tool sample_clock ''complete_todo'' (no_args\<lparr>arg_id := Some ''7''\<rparr>) None =
     (Inr [text_segment ''No todo found with ID 7''], None)"
proof -
  have 1: "\<forall>t\<in>set (readTodos (Some [milk_todo, review_todo])).
      Some (todo_id t) \<noteq> arg_id (no_args\<lparr>arg_id := Some ''7''\<rparr>)"
    by (simp add: readTodos_def milk_todo_def review_todo_def)
  have 2: "\<forall>t\<in>set (readTodos (Some [milk_todo, review_todo])).
      Some (todo_id t) \<noteq> arg_id (no_args\<lparr>arg_id := Some ''7'', arg_title := Some ''x''\<rparr>)"
    by (simp add: readTodos_def milk_todo_def review_todo_def)
  have 3: "\<forall>t\<in>set (readTodos None). Some (todo_id t) \<noteq> arg_id (no_args\<lparr>arg_id := Some ''7''\<rparr>)"
    by (simp add: readTodos_def)
  show ?thesis
    using not_found_leaves_store[OF 1, of "''delete_todo''" sample_clock]
      not_found_leaves_store[OF 2, of "''update_todo''" sample_clock]
      not_found_leaves_store[OF 3, of "''complete_todo''" sample_clock]
    by (simp add: js_str_def)
qed

text \<open>
  Claim C10: for every data file and all arguments, \<^verbatim>\<open>list_todos\<close> leaves the data file
  as it was, and its text is the lines, joined by newlines and in stored order, of exactly
  the todos that pass both the status filter (\<^verbatim>\<open>pending\<close> excludes the completed ones,
  \<^verbatim>\<open>completed\<close> keeps only them, anything else keeps all) and the priority filter when
  a priority is given (present and not the empty string); when no todo passes, the text is
  \<^verbatim>\<open>No todos match the filter.\<close>
\<close>

theorem list_todos_filters:
  "call_tool clk ''list_todos'' args file =
     (let matching = filter (\<lambda>t. status_filter (arg_status args) t \<and>
                                  priority_filter (arg_priority args) t) (readTodos file)
      in (Inr [text_segment (if matching = [] then ''No todos match the filter.''
                             else join newline (map todo_line matching))],
          file))"
  by (auto simp: call_tool_def Let_def status_filter_def priority_filter_def truthy_def reply_def
      split: option.splits
      intro!: arg_cong[where f="join newline"] arg_cong[where f="map todo_line"] filter_cong)

theorem list_todos_filters_witness:
  "call_tool sample_clock ''list_todos'' (no_args\<lparr>arg_status := Some ''completed''\<rparr>)
     (Some [milk_todo, review_todo]) =
     (Inr [text_segment (''[1002] '' @ check_mark @
              '' Review PR | high priority | due 2026-02-28 | the parser change'')],
      Some [milk_todo, review_todo]) \<and>
   call_tool sample_clock ''list_todos'' (no_args\<lparr>arg_priority := Some ''low''\<rparr>)
     (Some [milk_todo, review_todo]) =
     (Inr [text_segment ''No todos match the filter.''], Some [milk_todo, review_todo]) \<and>
   call_tool sample_clock ''list_todos'' no_args (Some [milk_todo, review_todo]) =
     (Inr [text_segment (''[1001] '' @ circle_mark @ '' buy milk | medium priority'' @ newline @
              ''[1002] '' @ check_mark @
              '' Review PR | high priority | due 2026-02-28 | the parser change'')],
      Some [milk_todo, review_todo])"
  using list_todos_filters[of sample_clock "no_args\<lparr>arg_status := Some ''completed''\<rparr>"
      "Some [milk_todo, review_todo]"]
    list_todos_filters[of sample_clock "no_args\<lparr>arg_priority := Some ''low''\<rparr>"
      "Some [milk_todo, review_todo]"]
    list_todos_filters[of sample_clock no_args "Some [milk_todo, review_todo]"]
  by (simp add: Let_def status_filter_def priority_filter_def readTodos_def no_args_def
      milk_todo_def review_todo_def todo_line_def js_str_def truthy_def)

end
